theory Spec2Isabelle
  imports Complex_Main "HOL-Library.Sublist"
begin

section \<open>Strings\<close>

text \<open>
  A Python \<open>str\<close> is modelled as a \<open>string\<close>: a list of characters with code points
  0 to 255. \<open>isspace\<close> is the whitespace test shared by \<open>str.strip()\<close> and by the
  class \<open>\s\<close> of a \<open>str\<close> pattern, on that range: the code points 0x09 to 0x0D,
  0x1C to 0x20, 0x85 and 0xA0.
\<close>

definition isspace :: "char \<Rightarrow> bool" where
  "isspace c = ((of_char c :: nat) \<in> {9, 10, 11, 12, 13, 28, 29, 30, 31, 32, 133, 160})"

text \<open>\<open>s.strip()\<close>: leading and trailing whitespace is removed.\<close>

definition strip :: "string \<Rightarrow> string" where
  "strip s = rev (dropWhile isspace (rev (dropWhile isspace s)))"

section \<open>The title normalizer\<close>

text \<open>
  The pattern of \<open>clean_chapter_title\<close> is \<open>\s*\([^)]*\)\<close>. \<open>match_here s\<close> tries it at
  the start of \<open>s\<close> and returns what follows the match: the whitespace run, an opening
  parenthesis, the characters up to the next closing parenthesis, and that parenthesis.
  The match at a position is unique (lemma \<open>match_here_iff\<close>), so the greedy choices of
  the pattern play no part.
\<close>

definition match_here :: "string \<Rightarrow> string option" where
  "match_here s =
     (case dropWhile isspace s of
        [] \<Rightarrow> None
      | c # r \<Rightarrow>
          if c = CHR ''(''
          then (case dropWhile (\<lambda>x. x \<noteq> CHR '')'') r of
                  [] \<Rightarrow> None
                | _ # rest \<Rightarrow> Some rest)
          else None)"

text \<open>
  \<open>re.sub(pattern, '', s)\<close>: scan from the left; where the pattern matches, drop the
  match and go on after it; elsewhere keep the character and go on at the next one.
\<close>

function re_sub :: "string \<Rightarrow> string" where
  "re_sub [] = []"
| "re_sub (c # cs) =
     (case match_here (c # cs) of
        Some rest \<Rightarrow> re_sub rest
      | None \<Rightarrow> c # re_sub cs)"
  by pat_completeness auto

termination
proof (relation "measure length")
  show "wf (measure length)"
    by simp
next
  fix c :: char and cs :: string
  show "(cs, c # cs) \<in> measure length"
    by simp
next
  fix c :: char and cs rest :: string
  assume m: "match_here (c # cs) = Some rest"
  from m obtain d r where 1: "dropWhile isspace (c # cs) = d # r"
    by (auto simp: match_here_def split: list.splits)
  with m have 2: "d = CHR ''(''"
    by (auto simp: match_here_def split: if_splits)
  with m 1 obtain y where 3: "dropWhile (\<lambda>x. x \<noteq> CHR '')'') r = y # rest"
    by (auto simp: match_here_def split: list.splits)
  have "length rest < length (dropWhile (\<lambda>x. x \<noteq> CHR '')'') r)"
    by (simp add: 3)
  also have "\<dots> \<le> length r"
    by (rule length_dropWhile_le)
  also have "\<dots> < length (dropWhile isspace (c # cs))"
    unfolding 1 by simp
  also have "\<dots> \<le> length (c # cs)"
    by (rule length_dropWhile_le)
  finally show "(rest, c # cs) \<in> measure length"
    by simp
qed

definition clean_chapter_title :: "string \<Rightarrow> string" where
  "clean_chapter_title title = strip (re_sub title)"

section \<open>Decimal formatting\<close>

text \<open>\<open>str(n)\<close> for a non-negative integer.\<close>

definition digit_char :: "nat \<Rightarrow> char" where
  "digit_char d = char_of (48 + d)"

function str_nat :: "nat \<Rightarrow> string" where
  "str_nat n =
     (if n < 10 then [digit_char n] else str_nat (n div 10) @ [digit_char (n mod 10)])"
  by pat_completeness auto

termination
  by (relation "measure id") auto

declare str_nat.simps [simp del]

text \<open>
  The format specification \<open>0{width}d\<close> on a non-negative integer: its decimal digits,
  filled with zeros on the left up to \<open>width\<close> characters, never truncated.
\<close>

definition format_0d :: "nat \<Rightarrow> nat \<Rightarrow> string" where
  "format_0d width n = replicate (width - length (str_nat n)) CHR ''0'' @ str_nat n"

section \<open>Chapters and deduplication\<close>

text \<open>
  A chapter as the probe returns it. \<open>start_time\<close> and \<open>end_time\<close> stand for the values
  of \<open>float(chapter['start_time'])\<close> and \<open>float(chapter['end_time'])\<close> (real numbers
  here); \<open>tags\<close> is \<open>None\<close> when the chapter has no \<open>'tags'\<close> entry.
\<close>

record chapter_info =
  start_time :: real
  end_time :: real
  tags :: "(string \<rightharpoonup> string) option"

text \<open>\<open>chapter.get('tags', {}).get('title', f'Chapter_{i+1:03d}')\<close>\<close>

definition title_of :: "nat \<Rightarrow> chapter_info \<Rightarrow> string" where
  "title_of i chapter =
     (case (case tags chapter of None \<Rightarrow> Map.empty | Some t \<Rightarrow> t) ''title'' of
        None \<Rightarrow> ''Chapter_'' @ format_0d 3 (i + 1)
      | Some title \<Rightarrow> title)"

text \<open>An element of \<open>deduped_chapters\<close>: \<open>(i, start_time, end_time, title)\<close>.\<close>

type_synonym survivor = "nat \<times> real \<times> real \<times> string"

text \<open>
  The first loop of \<open>main\<close>, from chapter \<open>i\<close> on, on the state
  \<open>(processed_titles, deduped_chapters)\<close>.
\<close>

fun dedupe_loop ::
  "bool \<Rightarrow> nat \<Rightarrow> chapter_info list \<Rightarrow> string set \<times> survivor list \<Rightarrow> string set \<times> survivor list"
where
  "dedupe_loop deduplicate i [] state = state"
| "dedupe_loop deduplicate i (chapter # rest) (processed_titles, deduped_chapters) =
     (let title = title_of i chapter;
          clean_title = clean_chapter_title title
      in if deduplicate
         then (if clean_title \<noteq> [] \<and> clean_title \<notin> processed_titles
               then dedupe_loop deduplicate (i + 1) rest
                      (insert clean_title processed_titles,
                       deduped_chapters @ [(i, start_time chapter, end_time chapter, title)])
               else dedupe_loop deduplicate (i + 1) rest (processed_titles, deduped_chapters))
         else dedupe_loop deduplicate (i + 1) rest
                (processed_titles,
                 deduped_chapters @ [(i, start_time chapter, end_time chapter, title)]))"

definition dedupe :: "chapter_info list \<Rightarrow> bool \<Rightarrow> survivor list" where
  "dedupe chapters deduplicate = snd (dedupe_loop deduplicate 0 chapters ({}, []))"

text \<open>
  Every chapter with its position and its title (the tag, or the fallback): what the
  loop reads, in input order.
\<close>

definition entries :: "nat \<Rightarrow> chapter_info list \<Rightarrow> survivor list" where
  "entries i chapters =
     map (\<lambda>(j, chapter). (j, start_time chapter, end_time chapter, title_of j chapter))
       (enumerate i chapters)"

text \<open>The title of a survivor, and the key it is compared by.\<close>

definition survivor_title :: "survivor \<Rightarrow> string" where
  "survivor_title e = snd (snd (snd e))"

definition dedup_key :: "survivor \<Rightarrow> string" where
  "dedup_key e = clean_chapter_title (survivor_title e)"

text \<open>
  A survivor read as a chapter again, to run the deduplication on its own output: the
  times are kept, and the title is now a tag.
\<close>

definition as_chapter :: "survivor \<Rightarrow> chapter_info" where
  "as_chapter e =
     \<lparr>start_time = fst (snd e), end_time = fst (snd (snd e)),
      tags = Some [''title'' \<mapsto> survivor_title e]\<rparr>"

definition dedupe_chapters :: "chapter_info list \<Rightarrow> bool \<Rightarrow> chapter_info list" where
  "dedupe_chapters chapters deduplicate = map as_chapter (dedupe chapters deduplicate)"

section \<open>Naming the jobs\<close>

text \<open>
  \<open>math.ceil(math.log10(n + 1))\<close>, with the logarithm taken exactly (the source computes
  it in floating point).
\<close>

definition num_digits :: "nat \<Rightarrow> int" where
  "num_digits n = \<lceil>log 10 (real (n + 1))\<rceil>"

text \<open>\<open>f"{i+1:0{num_digits}d} - {title}"\<close>\<close>

definition numbered_title :: "int \<Rightarrow> nat \<Rightarrow> string \<Rightarrow> string" where
  "numbered_title digits i title = format_0d (nat digits) (i + 1) @ '' - '' @ title"

datatype format = MP3 | WAV | M4A | M4B

fun format_name :: "format \<Rightarrow> string" where
  "format_name MP3 = ''mp3''"
| "format_name WAV = ''wav''"
| "format_name M4A = ''m4a''"
| "format_name M4B = ''m4b''"

text \<open>
  The argument tuple of \<open>process_chapter\<close>, without the progress bar, which is the
  shared state.
\<close>

record job =
  job_input_file :: string
  job_output_file :: string
  job_start_time :: real
  job_end_time :: real
  job_format :: format
  job_chapter_title :: string
  job_global_metadata :: "string \<rightharpoonup> string"
  job_sample_rate :: int

text \<open>
  The second loop of \<open>main\<close>. \<open>slugify\<close> (of the package python-slugify, with its
  \<open>max_length\<close>) and \<open>os.path.join\<close> are parameters.
\<close>

definition chapter_args ::
  "(string \<Rightarrow> nat \<Rightarrow> string) \<Rightarrow> (string \<Rightarrow> string \<Rightarrow> string) \<Rightarrow>
   string \<Rightarrow> string \<Rightarrow> format \<Rightarrow> (string \<rightharpoonup> string) \<Rightarrow> int \<Rightarrow> survivor list \<Rightarrow> job list"
where
  "chapter_args slugify path_join input_file output_folder fmt global_metadata sample_rate
     deduped_chapters =
     (let digits = num_digits (length deduped_chapters)
      in map (\<lambda>(i, (chapter_index, start, end, title)).
                let slugified_title = slugify (numbered_title digits i title) 100;
                    output_file =
                      path_join output_folder (slugified_title @ ''.'' @ format_name fmt)
                in \<lparr>job_input_file = input_file, job_output_file = output_file,
                    job_start_time = start, job_end_time = end, job_format = fmt,
                    job_chapter_title = title, job_global_metadata = global_metadata,
                    job_sample_rate = sample_rate\<rparr>)
           (enumerate 0 deduped_chapters))"

section \<open>Running a job\<close>

text \<open>A value of the keyword arguments handed to \<open>ffmpeg.output\<close>.\<close>

datatype pyval = PInt int | PStr string

text \<open>
  \<open>output_args\<close> of \<open>process_chapter\<close>. The dictionary display writes its entries from
  left to right, a later entry replacing an earlier one under the same key; the three
  \<open>update\<close> calls and the assignment of \<open>'c:v'\<close> follow. \<open>cover\<close> says whether the
  probe for video streams found one.
\<close>

definition output_args :: "job \<Rightarrow> bool \<Rightarrow> (string \<rightharpoonup> pyval)" where
  "output_args j cover =
     (let global_metadata = job_global_metadata j;
          get = (\<lambda>key. case global_metadata key of None \<Rightarrow> [] | Some v \<Rightarrow> v);
          args0 =
            [''ar'' \<mapsto> PInt (job_sample_rate j),
             ''metadata'' \<mapsto> PStr (''title='' @ job_chapter_title j),
             ''metadata'' \<mapsto> PStr (''artist='' @ get ''artist''),
             ''metadata'' \<mapsto> PStr (''album='' @ get ''album'')];
          args1 =
            (case job_format j of
               MP3 \<Rightarrow> args0(''acodec'' \<mapsto> PStr ''libmp3lame'', ''ab'' \<mapsto> PStr ''128k'',
                          ''q'' \<mapsto> PInt 2)
             | M4A \<Rightarrow> args0(''acodec'' \<mapsto> PStr ''aac'', ''b:a'' \<mapsto> PStr ''128k'')
             | M4B \<Rightarrow> args0(''acodec'' \<mapsto> PStr ''aac'', ''b:a'' \<mapsto> PStr ''128k'')
             | WAV \<Rightarrow> args0(''acodec'' \<mapsto> PStr ''pcm_s16le''))
      in if cover then args1(''c:v'' \<mapsto> PStr ''copy'') else args1)"

text \<open>
  One run of the engine: \<open>ffmpeg.input(input_file, ss=..., t=...)\<close> written to
  \<open>output_file\<close> with the keyword arguments.
\<close>

record ffmpeg_cmd =
  cmd_input_file :: string
  cmd_ss :: real
  cmd_t :: real
  cmd_output_file :: string
  cmd_args :: "string \<rightharpoonup> pyval"

text \<open>
  The engine, as the job sees it: \<open>probe_video\<close> is
  \<open>ffmpeg.probe(input_file, select_streams='v')\<close> reduced to whether it lists a stream
  (\<open>None\<close> when it raises), and \<open>run\<close> says whether \<open>ffmpeg.run\<close> returns (\<open>False\<close>
  when it raises).
\<close>

record engine =
  probe_video :: "string \<Rightarrow> bool option"
  run :: "ffmpeg_cmd \<Rightarrow> bool"

definition ffmpeg_cmd_of :: "job \<Rightarrow> bool \<Rightarrow> ffmpeg_cmd" where
  "ffmpeg_cmd_of j cover =
     \<lparr>cmd_input_file = job_input_file j, cmd_ss = job_start_time j,
      cmd_t = job_end_time j - job_start_time j, cmd_output_file = job_output_file j,
      cmd_args = output_args j cover\<rparr>"

text \<open>How a call of \<open>process_chapter\<close> ends: it returns, or it raises.\<close>

datatype outcome = Returned | Raised

text \<open>
  \<open>process_chapter\<close> on the count \<open>n\<close> of the progress bar: the count goes up by one
  only when the call gets to its last line.
\<close>

definition process_chapter :: "engine \<Rightarrow> job \<Rightarrow> nat \<Rightarrow> outcome \<times> nat" where
  "process_chapter eng j n =
     (case probe_video eng (job_input_file j) of
        None \<Rightarrow> (Raised, n)
      | Some cover \<Rightarrow>
          if run eng (ffmpeg_cmd_of j cover) then (Returned, n + 1) else (Raised, n))"

text \<open>
  \<open>executor.map(process_chapter, chapter_args)\<close> followed by the exit of the \<open>with\<close>
  block, which waits for every submitted call. Each element of the list is submitted
  and runs, whatever the calls before it did; a call that raises leaves its exception
  in its own future. The result is the list of the futures' outcomes, in submission
  order, and the count of the progress bar. The calls are taken one after the other
  here: the interleaving of the pool's threads is not modelled.
\<close>

fun executor_map :: "engine \<Rightarrow> job list \<Rightarrow> nat \<Rightarrow> outcome list \<times> nat" where
  "executor_map eng [] n = ([], n)"
| "executor_map eng (j # js) n =
     (let (r, n') = process_chapter eng j n;
          (rs, n'') = executor_map eng js n'
      in (r # rs, n''))"

section \<open>The command\<close>

datatype exception = ValueError | OSError

text \<open>
  The file system, as \<open>main\<close> uses it: \<open>path_exists\<close> is \<open>os.path.exists\<close>, and
  \<open>makedirs\<close> says whether \<open>os.makedirs\<close> returns (\<open>False\<close> when it raises: every
  exception it raises for a path that cannot be created is an \<open>OSError\<close>).
\<close>

record filesystem =
  path_exists :: "string \<Rightarrow> bool"
  makedirs :: "string \<Rightarrow> bool"

text \<open>
  What a run of \<open>main\<close> leaves: the lines given to \<open>click.echo\<close>, the progress bar as
  (count, total) once it is created, the jobs submitted to the pool, and the exception
  that ended the run, if one did.
\<close>

record main_result =
  echoed :: "string list"
  progress_bar :: "(nat \<times> nat) option"
  submitted :: "job list"
  raised :: "exception option"

text \<open>
  \<open>main\<close> after \<open>get_file_info\<close>, whose three results are arguments here. When the
  output folder does not exist it is created, and \<open>os.makedirs\<close> may raise, before the
  progress bar exists and before any chapter is read. The constructor
  \<open>ThreadPoolExecutor(max_workers=threads)\<close> raises \<open>ValueError\<close> when \<open>threads\<close> is
  not positive. The iterator that \<open>executor.map\<close> returns is dropped: the outcomes of
  the futures are bound to \<open>futures\<close> and never read.
\<close>

definition main ::
  "(string \<Rightarrow> nat \<Rightarrow> string) \<Rightarrow> (string \<Rightarrow> string \<Rightarrow> string) \<Rightarrow> filesystem \<Rightarrow> engine \<Rightarrow>
   chapter_info list \<Rightarrow> (string \<rightharpoonup> string) \<Rightarrow> int \<Rightarrow>
   string \<Rightarrow> string \<Rightarrow> int \<Rightarrow> bool \<Rightarrow> format \<Rightarrow> main_result"
where
  "main slugify path_join fs eng chapters global_metadata sample_rate
     input_file output_folder threads deduplicate fmt =
     (if chapters = []
      then \<lparr>echoed = [''No chapter information found in the M4B file.''],
            progress_bar = None, submitted = [], raised = None\<rparr>
      else if path_exists fs output_folder
      then \<lparr>echoed = [''Warning: Output folder '' @ [CHR 0x27] @ output_folder @ [CHR 0x27]
                         @ '' already exists.''],
            progress_bar = None, submitted = [], raised = None\<rparr>
      else if \<not> makedirs fs output_folder
      then \<lparr>echoed = [], progress_bar = None, submitted = [], raised = Some OSError\<rparr>
      else
        let deduped_chapters = dedupe chapters deduplicate;
            args = chapter_args slugify path_join input_file output_folder fmt
                     global_metadata sample_rate deduped_chapters
        in if threads \<le> 0
           then \<lparr>echoed = [], progress_bar = Some (0, length chapters), submitted = [],
                 raised = Some ValueError\<rparr>
           else
             let (futures, n) = executor_map eng args 0;
                 total_chapters = length chapters;
                 deduped_count = length deduped_chapters
             in \<lparr>echoed =
                   [''Successfully processed '' @ str_nat total_chapters @ '' chapters.'',
                    if deduplicate
                    then ''After deduplication, '' @ str_nat deduped_count
                           @ '' unique chapters remain in '' @ output_folder
                    else ''All '' @ str_nat deduped_count @ '' chapters saved to ''
                           @ output_folder],
                 progress_bar = Some (n, total_chapters), submitted = args,
                 raised = None\<rparr>)"

section \<open>Auxiliary definitions and examples\<close>


text \<open>
  The loop with deduplication on, written without the accumulator: an entry is kept
  when its key is non-empty and not among the keys seen so far.
\<close>

fun first_seen :: "string set \<Rightarrow> survivor list \<Rightarrow> survivor list" where
  "first_seen seen [] = []"
| "first_seen seen (e # es) =
     (if dedup_key e \<noteq> [] \<and> dedup_key e \<notin> seen
      then e # first_seen (insert (dedup_key e) seen) es
      else first_seen seen es)"

text \<open>The chapters of the scenario \<open>["Ch1", "Ch1 (alt take)", "Ch2"]\<close>.\<close>

definition scenario :: "chapter_info list" where
  "scenario =
     [\<lparr>start_time = 0, end_time = 1, tags = Some [''title'' \<mapsto> ''Ch1'']\<rparr>,
      \<lparr>start_time = 1, end_time = 2, tags = Some [''title'' \<mapsto> ''Ch1 (alt take)'']\<rparr>,
      \<lparr>start_time = 2, end_time = 3, tags = Some [''title'' \<mapsto> ''Ch2'']\<rparr>]"




text \<open>
  Concrete parameters for the closed statements below: a slug function that only
  truncates, a path join with a slash, global tags with an artist and an album, engines
  whose \<open>run\<close> fails on the command that starts at a given time, or on every command,
  and one job.
\<close>

definition example_slugify :: "string \<Rightarrow> nat \<Rightarrow> string" where
  "example_slugify s n = take n s"

definition example_join :: "string \<Rightarrow> string \<Rightarrow> string" where
  "example_join a b = a @ ''/'' @ b"

definition example_tags :: "string \<rightharpoonup> string" where
  "example_tags = [''artist'' \<mapsto> ''Ann'', ''album'' \<mapsto> ''Book'']"

definition engine_failing_at :: "real \<Rightarrow> engine" where
  "engine_failing_at t = \<lparr>probe_video = (\<lambda>f. Some False), run = (\<lambda>c. cmd_ss c \<noteq> t)\<rparr>"

definition engine_failing_always :: engine where
  "engine_failing_always = \<lparr>probe_video = (\<lambda>f. Some False), run = (\<lambda>c. False)\<rparr>"

definition example_job :: job where
  "example_job =
     \<lparr>job_input_file = ''in.m4b'', job_output_file = ''out/1-intro.mp3'', job_start_time = 0,
      job_end_time = 1, job_format = MP3, job_chapter_title = ''Intro'',
      job_global_metadata = example_tags, job_sample_rate = 44100\<rparr>"

text \<open>
  The run of the scenario through \<open>main\<close> with the concrete parameters: an engine that
  never fails, a file system in which no path exists yet and every folder but the one
  with the empty name can be created, and the two jobs the scenario gives.
\<close>

definition engine_succeeding :: engine where
  "engine_succeeding = \<lparr>probe_video = (\<lambda>f. Some False), run = (\<lambda>c. True)\<rparr>"

definition example_fs :: filesystem where
  "example_fs = \<lparr>path_exists = (\<lambda>p. False), makedirs = (\<lambda>p. p \<noteq> [])\<rparr>"

definition example_main :: "engine \<Rightarrow> string \<Rightarrow> int \<Rightarrow> main_result" where
  "example_main eng output_folder threads =
     main example_slugify example_join example_fs eng scenario example_tags 44100 ''in.m4b''
       output_folder threads True MP3"

definition example_jobs :: "job list" where
  "example_jobs =
     [\<lparr>job_input_file = ''in.m4b'', job_output_file = ''out/1 - Ch1.mp3'', job_start_time = 0,
       job_end_time = 1, job_format = MP3, job_chapter_title = ''Ch1'',
       job_global_metadata = example_tags, job_sample_rate = 44100\<rparr>,
      \<lparr>job_input_file = ''in.m4b'', job_output_file = ''out/2 - Ch2.mp3'', job_start_time = 2,
       job_end_time = 3, job_format = MP3, job_chapter_title = ''Ch2'',
       job_global_metadata = example_tags, job_sample_rate = 44100\<rparr>]"

section \<open>Deduplication: first occurrences\<close>

lemma entries_Nil [simp]: "entries i [] = []"
  by (simp add: entries_def)

lemma entries_Cons [simp]:
  "entries i (c # cs) = (i, start_time c, end_time c, title_of i c) # entries (Suc i) cs"
  by (simp add: entries_def)

lemma length_entries [simp]: "length (entries i cs) = length cs"
  by (simp add: entries_def)

lemma entries_nth:
  "k < length cs \<Longrightarrow>
   entries i cs ! k = (i + k, start_time (cs ! k), end_time (cs ! k), title_of (i + k) (cs ! k))"
  by (simp add: entries_def nth_enumerate_eq)

lemma dedupe_loop_on:
  "dedupe_loop True i cs (seen, acc) =
     (seen \<union> dedup_key ` set (first_seen seen (entries i cs)),
      acc @ first_seen seen (entries i cs))"
  by (induction cs arbitrary: i seen acc)
     (auto simp: Let_def dedup_key_def survivor_title_def)

lemma dedupe_loop_off:
  "dedupe_loop False i cs (seen, acc) = (seen, acc @ entries i cs)"
  by (induction cs arbitrary: i seen acc) (auto simp: Let_def)

lemma dedupe_on: "dedupe cs True = first_seen {} (entries 0 cs)"
  by (simp add: dedupe_def dedupe_loop_on)

lemma dedupe_off: "dedupe cs False = entries 0 cs"
  by (simp add: dedupe_def dedupe_loop_off)

lemma subseq_first_seen: "subseq (first_seen seen es) es"
  by (induction es arbitrary: seen) auto

lemma set_first_seen: "set (first_seen seen es) \<subseteq> set es"
  using subseq_first_seen [of seen es] by (auto dest: list_emb_set)

lemma first_seen_append:
  "first_seen seen (xs @ ys) =
     first_seen seen xs @ first_seen (seen \<union> dedup_key ` set (first_seen seen xs)) ys"
  by (induction xs arbitrary: seen) auto

lemma keys_covered:
  "x \<in> set xs \<Longrightarrow> dedup_key x \<noteq> [] \<Longrightarrow>
   dedup_key x \<in> seen \<union> dedup_key ` set (first_seen seen xs)"
  by (induction xs arbitrary: seen) (auto split: if_splits)

lemma first_seen_keys:
  "e \<in> set (first_seen seen es) \<Longrightarrow> dedup_key e \<noteq> [] \<and> dedup_key e \<notin> seen"
  by (induction es arbitrary: seen) (auto split: if_splits)

lemma first_seen_distinct_keys: "distinct (map dedup_key (first_seen seen es))"
  by (induction es arbitrary: seen) (auto dest: first_seen_keys)

lemma first_seen_all:
  "distinct (map dedup_key es) \<Longrightarrow>
   (\<And>e. e \<in> set es \<Longrightarrow> dedup_key e \<noteq> [] \<and> dedup_key e \<notin> seen) \<Longrightarrow>
   first_seen seen es = es"
proof (induction es arbitrary: seen)
  case Nil
  show ?case by simp
next
  case (Cons a es)
  have "first_seen (insert (dedup_key a) seen) es = es"
  proof (rule Cons.IH)
    show "distinct (map dedup_key es)"
      using Cons.prems(1) by simp
    show "dedup_key e \<noteq> [] \<and> dedup_key e \<notin> insert (dedup_key a) seen" if "e \<in> set es" for e
      using that Cons.prems(1) Cons.prems(2) [of e] by (auto simp: image_iff)
  qed
  then show ?case
    using Cons.prems(2) [of a] by simp
qed

lemma first_seen_mid:
  assumes "e \<notin> set before" "e \<notin> set after"
  shows "e \<in> set (first_seen seen (before @ e # after)) \<longleftrightarrow>
         dedup_key e \<noteq> [] \<and> dedup_key e \<notin> seen \<and> dedup_key e \<notin> dedup_key ` set before"
proof -
  let ?seen' = "seen \<union> dedup_key ` set (first_seen seen before)"
  have a: "e \<notin> set (first_seen seen before)"
    using assms(1) set_first_seen by blast
  have b: "e \<notin> set (first_seen s after)" for s
    using assms(2) set_first_seen by blast
  have "e \<in> set (first_seen seen (before @ e # after)) \<longleftrightarrow>
        dedup_key e \<noteq> [] \<and> dedup_key e \<notin> ?seen'"
    using a b by (auto simp: first_seen_append)
  also have "\<dots> \<longleftrightarrow> dedup_key e \<noteq> [] \<and> dedup_key e \<notin> seen \<and> dedup_key e \<notin> dedup_key ` set before"
    using keys_covered [of _ before seen] set_first_seen [of seen before] by (auto; blast)
  finally show ?thesis .
qed

lemma map_fst_entries: "map fst (entries i cs) = [i..<i + length cs]"
proof (induction cs arbitrary: i)
  case Nil
  show ?case by simp
next
  case (Cons c cs)
  have "[i..<i + length (c # cs)] = i # [Suc i..<i + length (c # cs)]"
    by (rule upt_conv_Cons) simp
  then show ?case
    by (simp add: Cons.IH)
qed

lemma distinct_entries: "distinct (entries i cs)"
proof -
  have "distinct (map fst (entries i cs))"
    by (simp add: map_fst_entries)
  then show ?thesis
    by (simp add: distinct_map)
qed

lemma dedup_key_entry:
  "dedup_key (i, s, e, t) = clean_chapter_title t"
  by (simp add: dedup_key_def survivor_title_def)

lemma entry_kept_iff:
  assumes "i < length cs"
  shows "entries 0 cs ! i \<in> set (dedupe cs True) \<longleftrightarrow>
         dedup_key (entries 0 cs ! i) \<noteq> [] \<and>
         (\<forall>j<i. dedup_key (entries 0 cs ! j) \<noteq> dedup_key (entries 0 cs ! i))"
proof -
  define E where "E = entries 0 cs"
  define before where "before = take i E"
  define after where "after = drop (Suc i) E"
  have len: "i < length E" using assms by (simp add: E_def)
  have parts: "before @ E ! i # after = E"
    unfolding before_def after_def using len by (simp add: id_take_nth_drop [symmetric])
  have "distinct E"
    unfolding E_def by (rule distinct_entries)
  then have d: "distinct (before @ E ! i # after)"
    by (simp only: parts)
  have out: "E ! i \<notin> set before" "E ! i \<notin> set after"
    using d by auto
  have "E ! i \<in> set (first_seen {} (before @ E ! i # after)) \<longleftrightarrow>
        dedup_key (E ! i) \<noteq> [] \<and> dedup_key (E ! i) \<notin> {} \<and>
        dedup_key (E ! i) \<notin> dedup_key ` set before"
    using out by (rule first_seen_mid)
  then have 1: "E ! i \<in> set (first_seen {} E) \<longleftrightarrow>
        dedup_key (E ! i) \<noteq> [] \<and> dedup_key (E ! i) \<notin> dedup_key ` set before"
    by (simp only: parts) simp
  have sb: "set before = (!) E ` {0..<i}"
    unfolding before_def using len by (simp add: nth_image)
  have 2: "dedup_key (E ! i) \<notin> dedup_key ` set before \<longleftrightarrow>
        (\<forall>j<i. dedup_key (E ! j) \<noteq> dedup_key (E ! i))"
  proof
    assume L: "dedup_key (E ! i) \<notin> dedup_key ` set before"
    show "\<forall>j<i. dedup_key (E ! j) \<noteq> dedup_key (E ! i)"
    proof (intro allI impI)
      fix j
      assume "j < i"
      then have "E ! j \<in> set before"
        using sb by simp
      then have "dedup_key (E ! j) \<in> dedup_key ` set before"
        by (rule imageI)
      with L show "dedup_key (E ! j) \<noteq> dedup_key (E ! i)"
        by metis
    qed
  next
    assume R: "\<forall>j<i. dedup_key (E ! j) \<noteq> dedup_key (E ! i)"
    show "dedup_key (E ! i) \<notin> dedup_key ` set before"
    proof
      assume "dedup_key (E ! i) \<in> dedup_key ` set before"
      then obtain x where x: "x \<in> set before" "dedup_key (E ! i) = dedup_key x"
        by (rule imageE)
      from x(1) obtain j where "j < i" "x = E ! j"
        using sb by auto
      with R x(2) show False
        by metis
    qed
  qed
  show ?thesis
    using 1 2 by (simp add: dedupe_on E_def)
qed

lemma dedupe_in_entries: "set (dedupe cs True) \<subseteq> set (entries 0 cs)"
  by (simp add: dedupe_on set_first_seen)

lemma entries_0_nth:
  "i < length cs \<Longrightarrow>
   entries 0 cs ! i = (i, start_time (cs ! i), end_time (cs ! i), title_of i (cs ! i))"
  using entries_nth [of i cs 0] by simp

lemma in_entries_0:
  "e \<in> set (entries 0 cs) \<Longrightarrow> fst e < length cs \<and> e = entries 0 cs ! fst e"
proof -
  assume "e \<in> set (entries 0 cs)"
  then obtain k where k: "k < length cs" "e = entries 0 cs ! k"
    by (auto simp: in_set_conv_nth)
  then have "fst e = k"
    by (simp add: entries_0_nth)
  with k show ?thesis by simp
qed

lemma entry_kept_iff_kept:
  assumes "i < length cs"
  shows "entries 0 cs ! i \<in> set (dedupe cs True) \<longleftrightarrow>
         dedup_key (entries 0 cs ! i) \<noteq> [] \<and>
         (\<forall>e \<in> set (dedupe cs True). fst e < i \<longrightarrow> dedup_key e \<noteq> dedup_key (entries 0 cs ! i))"
proof -
  define E where "E = entries 0 cs"
  define K where "K = dedupe cs True"
  have kept: "j < length cs \<Longrightarrow> E ! j \<in> set K \<longleftrightarrow>
      dedup_key (E ! j) \<noteq> [] \<and> (\<forall>l<j. dedup_key (E ! l) \<noteq> dedup_key (E ! j))" for j
    unfolding E_def K_def by (rule entry_kept_iff)
  have fst_E: "j < length cs \<Longrightarrow> fst (E ! j) = j" for j
    unfolding E_def by (simp add: entries_0_nth)
  have K_in: "e \<in> set K \<Longrightarrow> fst e < length cs \<and> e = E ! fst e" for e
    unfolding E_def K_def using dedupe_in_entries [of cs] in_entries_0 [of e cs] by blast
  have "(\<forall>e \<in> set K. fst e < i \<longrightarrow> dedup_key e \<noteq> dedup_key (E ! i)) \<longleftrightarrow>
        (\<forall>j<i. dedup_key (E ! j) \<noteq> dedup_key (E ! i))"
    if nonempty: "dedup_key (E ! i) \<noteq> []"
  proof
    assume R: "\<forall>j<i. dedup_key (E ! j) \<noteq> dedup_key (E ! i)"
    show "\<forall>e \<in> set K. fst e < i \<longrightarrow> dedup_key e \<noteq> dedup_key (E ! i)"
    proof (intro ballI impI)
      fix e
      assume "e \<in> set K" "fst e < i"
      then have "e = E ! fst e" using K_in by blast
      with R \<open>fst e < i\<close> show "dedup_key e \<noteq> dedup_key (E ! i)" by metis
    qed
  next
    assume L: "\<forall>e \<in> set K. fst e < i \<longrightarrow> dedup_key e \<noteq> dedup_key (E ! i)"
    show "\<forall>j<i. dedup_key (E ! j) \<noteq> dedup_key (E ! i)"
    proof (rule ccontr)
      assume "\<not> (\<forall>j<i. dedup_key (E ! j) \<noteq> dedup_key (E ! i))"
      then have ex: "\<exists>j. j < i \<and> dedup_key (E ! j) = dedup_key (E ! i)" by blast
      define m where "m = (LEAST j. j < i \<and> dedup_key (E ! j) = dedup_key (E ! i))"
      have m: "m < i \<and> dedup_key (E ! m) = dedup_key (E ! i)"
        unfolding m_def using ex by (rule LeastI_ex)
      have least: "l < m \<Longrightarrow> \<not> (l < i \<and> dedup_key (E ! l) = dedup_key (E ! i))" for l
        unfolding m_def by (rule not_less_Least)
      have "m < length cs" using m assms by simp
      moreover have "dedup_key (E ! m) \<noteq> []" using m nonempty by simp
      moreover have "\<forall>l<m. dedup_key (E ! l) \<noteq> dedup_key (E ! m)"
        using least m by (metis less_trans)
      ultimately have "E ! m \<in> set K" using kept by blast
      moreover have "fst (E ! m) < i" using fst_E \<open>m < length cs\<close> m by simp
      ultimately show False using L m by blast
    qed
  qed
  then show ?thesis
    using kept [OF assms] unfolding E_def K_def by blast
qed

text \<open>
  C1. With deduplication on, the chapter at position \<open>i\<close> is kept if and only if its
  normalized title is non-empty and is not the normalized title of an earlier kept
  chapter; equivalently, if and only if it is non-empty and no earlier chapter at all has
  it, so the first occurrence of each normalized title is kept and every later one is
  dropped. Every kept entry is a chapter of the input with its position, times and
  title, and the normalized titles of the kept entries are pairwise distinct. The loop
  has no failing branch: a dropped chapter is passed over.
\<close>

theorem dedupe_keeps_first_occurrence:
  assumes "i < length chapters"
  shows "((i, start_time (chapters ! i), end_time (chapters ! i), title_of i (chapters ! i))
            \<in> set (dedupe chapters True) \<longleftrightarrow>
          clean_chapter_title (title_of i (chapters ! i)) \<noteq> [] \<and>
          (\<forall>(j, s, e, t) \<in> set (dedupe chapters True).
             j < i \<longrightarrow> clean_chapter_title t \<noteq> clean_chapter_title (title_of i (chapters ! i))))
       \<and> ((i, start_time (chapters ! i), end_time (chapters ! i), title_of i (chapters ! i))
            \<in> set (dedupe chapters True) \<longleftrightarrow>
          clean_chapter_title (title_of i (chapters ! i)) \<noteq> [] \<and>
          (\<forall>j<i. clean_chapter_title (title_of j (chapters ! j))
                   \<noteq> clean_chapter_title (title_of i (chapters ! i))))
       \<and> (\<forall>(j, s, e, t) \<in> set (dedupe chapters True).
            j < length chapters \<and> s = start_time (chapters ! j) \<and> e = end_time (chapters ! j)
            \<and> t = title_of j (chapters ! j))
       \<and> distinct (map (\<lambda>(j, s, e, t). clean_chapter_title t) (dedupe chapters True))"
proof -
  let ?E = "entries 0 chapters"
  have Ei: "?E ! i = (i, start_time (chapters ! i), end_time (chapters ! i), title_of i (chapters ! i))"
    using assms by (rule entries_0_nth)
  have key: "dedup_key = (\<lambda>(j, s, e, t). clean_chapter_title t)"
    by (auto simp: dedup_key_entry)
  have A: "?E ! i \<in> set (dedupe chapters True) \<longleftrightarrow>
         dedup_key (?E ! i) \<noteq> [] \<and>
         (\<forall>e \<in> set (dedupe chapters True). fst e < i \<longrightarrow> dedup_key e \<noteq> dedup_key (?E ! i))"
    using assms by (rule entry_kept_iff_kept)
  have B: "?E ! i \<in> set (dedupe chapters True) \<longleftrightarrow>
         dedup_key (?E ! i) \<noteq> [] \<and> (\<forall>j<i. dedup_key (?E ! j) \<noteq> dedup_key (?E ! i))"
    using assms by (rule entry_kept_iff)
  have B': "(\<forall>j<i. dedup_key (?E ! j) \<noteq> dedup_key (?E ! i)) \<longleftrightarrow>
      (\<forall>j<i. clean_chapter_title (title_of j (chapters ! j))
                   \<noteq> clean_chapter_title (title_of i (chapters ! i)))"
    using assms by (simp add: entries_0_nth dedup_key_entry)
  have C: "\<forall>(j, s, e, t) \<in> set (dedupe chapters True).
            j < length chapters \<and> s = start_time (chapters ! j) \<and> e = end_time (chapters ! j)
            \<and> t = title_of j (chapters ! j)"
  proof (clarify)
    fix j s e t
    assume "(j, s, e, t) \<in> set (dedupe chapters True)"
    then have "(j, s, e, t) \<in> set ?E" using dedupe_in_entries by blast
    then have "j < length chapters \<and> (j, s, e, t) = ?E ! j"
      using in_entries_0 [of "(j, s, e, t)" chapters] by simp
    then have "j < length chapters" and
      "(j, s, e, t) = (j, start_time (chapters ! j), end_time (chapters ! j), title_of j (chapters ! j))"
      using entries_0_nth [of j chapters] by simp_all
    then show "j < length chapters \<and> s = start_time (chapters ! j) \<and> e = end_time (chapters ! j)
            \<and> t = title_of j (chapters ! j)"
      by simp
  qed
  have D: "distinct (map (\<lambda>(j, s, e, t). clean_chapter_title t) (dedupe chapters True))"
    using first_seen_distinct_keys [of "{}" ?E] by (simp add: dedupe_on key)
  have A': "(\<forall>e \<in> set (dedupe chapters True). fst e < i \<longrightarrow> dedup_key e \<noteq> dedup_key (?E ! i)) \<longleftrightarrow>
     (\<forall>(j, s, e, t) \<in> set (dedupe chapters True).
             j < i \<longrightarrow> clean_chapter_title t \<noteq> clean_chapter_title (title_of i (chapters ! i)))"
    by (auto simp: Ei dedup_key_entry)
  show ?thesis
    using A B C D unfolding A' B' by (simp add: Ei dedup_key_entry)
qed

theorem dedupe_keeps_first_occurrence_witness:
  "1 < length scenario
   \<and> (1, 1, 2, ''Ch1 (alt take)'') \<notin> set (dedupe scenario True)
   \<and> (0, 0, 1, ''Ch1'') \<in> set (dedupe scenario True)"
proof -
  have len: "1 < length scenario" "0 < length scenario"
    by (simp_all add: scenario_def)
  have t: "title_of 0 (scenario ! 0) = ''Ch1''"
    "title_of (Suc 0) (scenario ! Suc 0) = ''Ch1 (alt take)''"
    by (simp_all add: scenario_def title_of_def)
  have f: "start_time (scenario ! 0) = 0" "end_time (scenario ! 0) = 1"
    "start_time (scenario ! Suc 0) = 1" "end_time (scenario ! Suc 0) = 2"
    by (simp_all add: scenario_def)
  have c: "clean_chapter_title ''Ch1'' = ''Ch1''" "clean_chapter_title ''Ch1 (alt take)'' = ''Ch1''"
    by code_simp+
  have "(1, 1, 2, ''Ch1 (alt take)'') \<notin> set (dedupe scenario True)"
    using dedupe_keeps_first_occurrence [OF len(1), THEN conjunct2, THEN conjunct1]
    by (simp add: t f c)
  moreover have "(0, 0, 1, ''Ch1'') \<in> set (dedupe scenario True)"
    using dedupe_keeps_first_occurrence [OF len(2), THEN conjunct2, THEN conjunct1]
    by (simp add: t f c)
  ultimately show ?thesis
    using len by simp
qed

section \<open>Deduplication: order and idempotence\<close>

lemma dedupe_subseq_entries: "subseq (dedupe cs d) (entries 0 cs)"
  by (cases d) (simp_all add: dedupe_on dedupe_off subseq_first_seen)

text \<open>
  C8. For both values of the flag, the survivors are a subsequence of the chapters taken
  in input order, each with its position, its times and its title (the tag, or the
  fallback); with the flag off the survivors are all of them, in that order.
\<close>

theorem survivors_subsequence:
  "subseq (dedupe chapters deduplicate)
     (map (\<lambda>(j, chapter). (j, start_time chapter, end_time chapter, title_of j chapter))
        (enumerate 0 chapters))
   \<and> dedupe chapters False =
     map (\<lambda>(j, chapter). (j, start_time chapter, end_time chapter, title_of j chapter))
       (enumerate 0 chapters)"
  using dedupe_subseq_entries [of chapters deduplicate] dedupe_off [of chapters]
  by (simp add: entries_def)

theorem survivors_subsequence_witness:
  "subseq (dedupe scenario True)
     [(0, 0, 1, ''Ch1''), (1, 1, 2, ''Ch1 (alt take)''), (2, 2, 3, ''Ch2'')]
   \<and> dedupe scenario False =
     [(0, 0, 1, ''Ch1''), (1, 1, 2, ''Ch1 (alt take)''), (2, 2, 3, ''Ch2'')]"
proof -
  have e: "map (\<lambda>(j, chapter). (j, start_time chapter, end_time chapter, title_of j chapter))
             (enumerate 0 scenario) =
           [(0, 0, 1, ''Ch1''), (1, 1, 2, ''Ch1 (alt take)''), (2, 2, 3, ''Ch2'')]"
    by (simp add: scenario_def title_of_def)
  show ?thesis
    using survivors_subsequence [of scenario True] by (simp only: e)
qed

lemma str_nat_length_pos: "0 < length (str_nat n)"
  by (subst str_nat.simps) simp

lemma length_format_0d: "length (format_0d w n) = max w (length (str_nat n))"
  by (simp add: format_0d_def)


lemma title_of_as_chapter: "title_of k (as_chapter x) = survivor_title x"
  by (simp add: title_of_def as_chapter_def)

lemma dedup_key_entries_as_chapter:
  "map dedup_key (entries k (map as_chapter xs)) = map dedup_key xs"
  by (induction xs arbitrary: k)
     (simp_all add: title_of_as_chapter dedup_key_def survivor_title_def)

lemma as_chapter_entries_as_chapter:
  "map as_chapter (entries k (map as_chapter xs)) = map as_chapter xs"
  by (induction xs arbitrary: k)
     (simp_all add: title_of_def as_chapter_def survivor_title_def)

text \<open>
  C7. Deduplication with the flag on is idempotent. \<open>dedupe_chapters\<close> reads the
  survivors as chapters again (their times, and their title as the title tag); the
  position stored with a survivor is its place in the list the loop ran over and is
  never read after the loop.
\<close>

theorem dedupe_idempotent:
  "dedupe_chapters (dedupe_chapters chapters True) True = dedupe_chapters chapters True"
proof -
  define S where "S = dedupe chapters True"
  define E' where "E' = entries 0 (map as_chapter S)"
  have keys: "map dedup_key E' = map dedup_key S"
    unfolding E'_def by (rule dedup_key_entries_as_chapter)
  have S: "S = first_seen {} (entries 0 chapters)"
    unfolding S_def by (rule dedupe_on)
  have "distinct (map dedup_key S)"
    unfolding S by (rule first_seen_distinct_keys)
  then have d: "distinct (map dedup_key E')"
    by (simp only: keys)
  have ne: "dedup_key e \<noteq> [] \<and> dedup_key e \<notin> {}" if "e \<in> set E'" for e
  proof -
    from that have "dedup_key e \<in> set (map dedup_key E')" by simp
    then have "dedup_key e \<in> set (map dedup_key S)" by (simp only: keys)
    then obtain x where "x \<in> set S" "dedup_key e = dedup_key x" by auto
    then show ?thesis
      using first_seen_keys [of x "{}" "entries 0 chapters"] S by simp
  qed
  have "first_seen {} E' = E'"
    using d ne by (rule first_seen_all)
  then have "dedupe (map as_chapter S) True = E'"
    by (simp add: dedupe_on E'_def)
  then have "map as_chapter (dedupe (map as_chapter S) True) = map as_chapter S"
    unfolding E'_def by (simp add: as_chapter_entries_as_chapter)
  then show ?thesis
    by (simp add: dedupe_chapters_def S_def)
qed

theorem dedupe_idempotent_witness:
  "dedupe_chapters (dedupe_chapters scenario True) True =
     [\<lparr>start_time = 0, end_time = 1, tags = Some [''title'' \<mapsto> ''Ch1'']\<rparr>,
      \<lparr>start_time = 2, end_time = 3, tags = Some [''title'' \<mapsto> ''Ch2'']\<rparr>]"
proof -
  have "dedupe scenario True = [(0, 0, 1, ''Ch1''), (2, 2, 3, ''Ch2'')]"
    by code_simp
  then have "dedupe_chapters scenario True =
     [\<lparr>start_time = 0, end_time = 1, tags = Some [''title'' \<mapsto> ''Ch1'']\<rparr>,
      \<lparr>start_time = 2, end_time = 3, tags = Some [''title'' \<mapsto> ''Ch2'']\<rparr>]"
    by (simp add: dedupe_chapters_def as_chapter_def survivor_title_def)
  then show ?thesis
    using dedupe_idempotent [of scenario] by simp
qed

section \<open>The title normalizer: what it removes\<close>


















section \<open>The width of the sequence numbers\<close>

text \<open>
  \<open>num_digits n\<close> is the number of decimal digits of \<open>n\<close> when \<open>n\<close> is positive
  (\<open>num_digits_length\<close>), so every sequence number from 1 to \<open>n\<close> fits the width and is
  padded to it exactly (\<open>padded_length\<close>).
\<close>

lemma num_digits_eq:
  assumes "10 ^ d < n + 1" "n + 1 \<le> 10 ^ (d + 1)"
  shows "num_digits n = int d + 1"
proof -
  have "\<lceil>log (real 10) (real (n + 1))\<rceil> = int d + 1"
    using assms by (intro ceiling_log_nat_eq_if) simp_all
  then show ?thesis
    by (simp add: num_digits_def)
qed

lemma str_nat_bounds:
  "n < 10 ^ length (str_nat n) \<and> (0 < n \<longrightarrow> 10 ^ (length (str_nat n) - 1) \<le> n)"
proof (induction n rule: str_nat.induct)
  case (1 n)
  show ?case
  proof (cases "n < 10")
    case True
    then show ?thesis by (subst (1 2) str_nat.simps) simp
  next
    case False
    define l where "l = length (str_nat (n div 10))"
    define q :: nat where "q = 10 ^ (l - 1)"
    have len: "length (str_nat n) = l + 1"
      using False by (subst str_nat.simps) (simp add: l_def)
    have pos: "0 < n div 10"
      using False by simp
    have lpos: "0 < l"
      unfolding l_def by (subst str_nat.simps) simp
    have pw: "(10::nat) ^ l = 10 * q"
      using lpos by (simp add: q_def power_eq_if)
    have "n div 10 < 10 ^ l" "10 ^ (l - 1) \<le> n div 10"
      using 1 [OF False] pos by (simp_all add: l_def)
    then have a: "n div 10 < 10 * q" and b: "q \<le> n div 10"
      by (simp_all add: pw q_def)
    have "n < 10 * (10 * q)" "10 * q \<le> n"
      using a b by arith+
    then show ?thesis
      by (simp add: len pw)
  qed
qed

lemma num_digits_length:
  assumes "0 < n"
  shows "num_digits n = int (length (str_nat n))"
proof -
  define l where "l = length (str_nat n)"
  have lpos: "0 < l"
    unfolding l_def by (rule str_nat_length_pos)
  have "n < 10 ^ l" "10 ^ (l - 1) \<le> n"
    using str_nat_bounds [of n] assms by (simp_all add: l_def)
  then have "10 ^ (l - 1) < n + 1" "n + 1 \<le> 10 ^ ((l - 1) + 1)"
    using lpos by simp_all
  then have "num_digits n = int (l - 1) + 1"
    by (rule num_digits_eq)
  then have "num_digits n = int l"
    using lpos by simp
  then show ?thesis
    by (simp only: l_def)
qed

lemma length_str_nat_mono:
  assumes "m \<le> n"
  shows "length (str_nat m) \<le> length (str_nat n)"
proof (rule ccontr)
  assume "\<not> length (str_nat m) \<le> length (str_nat n)"
  then have lt: "length (str_nat n) \<le> length (str_nat m) - 1"
    by simp
  have "0 < m"
  proof (rule ccontr)
    assume "\<not> 0 < m"
    then have "length (str_nat m) = 1" by (subst str_nat.simps) simp
    with lt str_nat_length_pos [of n] show False by simp
  qed
  then have "10 ^ (length (str_nat m) - 1) \<le> m"
    using str_nat_bounds [of m] by simp
  moreover have "(10::nat) ^ length (str_nat n) \<le> 10 ^ (length (str_nat m) - 1)"
    using lt by (intro power_increasing) simp_all
  moreover have "n < 10 ^ length (str_nat n)"
    using str_nat_bounds [of n] by simp
  ultimately show False
    using assms by linarith
qed

lemma padded_length:
  assumes "k < n"
  shows "length (format_0d (nat (num_digits n)) (k + 1)) = nat (num_digits n)"
proof -
  have "0 < n" using assms by simp
  then have w: "nat (num_digits n) = length (str_nat n)"
    by (simp add: num_digits_length)
  have "length (str_nat (k + 1)) \<le> length (str_nat n)"
    using assms by (intro length_str_nat_mono) simp
  then show ?thesis
    by (simp add: length_format_0d w)
qed

lemma num_digits_9: "num_digits 9 = 1"
  using num_digits_eq [of 0 9] by simp

lemma num_digits_10: "num_digits 10 = 2"
  using num_digits_eq [of 1 10] by simp

lemma chapter_args_output_file:
  assumes "k < length ds"
  shows "job_output_file (chapter_args slugify path_join input_file output_folder fmt
           global_metadata sample_rate ds ! k) =
         path_join output_folder
           (slugify (numbered_title (num_digits (length ds)) k (survivor_title (ds ! k))) 100
            @ ''.'' @ format_name fmt)"
  using assms
  by (simp add: chapter_args_def Let_def nth_enumerate_eq split_def survivor_title_def)

text \<open>
  C5. For a non-empty list of survivors the width is \<open>ceil(log10(count + 1))\<close>, one
  value for the whole batch: the output file of every job is named from its sequence
  number padded to that width, and every padded sequence number has exactly that many
  characters. For 9 survivors the width is 1, for 10 survivors it is 2.
\<close>

theorem zero_pad_width:
  assumes "survivors \<noteq> []"
  shows "num_digits (length survivors) = \<lceil>log 10 (real (length survivors + 1))\<rceil>
       \<and> (\<forall>k<length survivors.
            job_output_file (chapter_args slugify path_join input_file output_folder fmt
              global_metadata sample_rate survivors ! k) =
              path_join output_folder
                (slugify (format_0d (nat (num_digits (length survivors))) (k + 1) @ '' - ''
                            @ survivor_title (survivors ! k)) 100
                 @ ''.'' @ format_name fmt)
            \<and> length (format_0d (nat (num_digits (length survivors))) (k + 1)) =
                nat (num_digits (length survivors)))
       \<and> (length survivors = 9 \<longrightarrow> num_digits (length survivors) = 1)
       \<and> (length survivors = 10 \<longrightarrow> num_digits (length survivors) = 2)"
proof -
  have 1: "num_digits (length survivors) = \<lceil>log 10 (real (length survivors + 1))\<rceil>"
    by (simp add: num_digits_def)
  have 2: "job_output_file (chapter_args slugify path_join input_file output_folder fmt
              global_metadata sample_rate survivors ! k) =
              path_join output_folder
                (slugify (format_0d (nat (num_digits (length survivors))) (k + 1) @ '' - ''
                            @ survivor_title (survivors ! k)) 100
                 @ ''.'' @ format_name fmt)" if "k < length survivors" for k
    using that by (simp add: chapter_args_output_file numbered_title_def)
  have 3: "length (format_0d (nat (num_digits (length survivors))) (k + 1)) =
                nat (num_digits (length survivors))" if "k < length survivors" for k
    using that by (rule padded_length)
  have 4: "length survivors = 9 \<longrightarrow> num_digits (length survivors) = 1"
    by (simp add: num_digits_9)
  have 5: "length survivors = 10 \<longrightarrow> num_digits (length survivors) = 2"
    by (simp add: num_digits_10)
  show ?thesis
    using 1 2 3 4 5 by blast
qed

theorem zero_pad_width_witness:
  "replicate 10 (0::nat, 0::real, 1::real, ''x'') \<noteq> []
   \<and> num_digits (length (replicate 10 (0::nat, 0::real, 1::real, ''x''))) = 2
   \<and> job_output_file (chapter_args (\<lambda>s n. take n s) (\<lambda>a b. a @ ''/'' @ b) ''in.m4b'' ''out'' MP3
        Map.empty 44100 (replicate 10 (0, 0, 1, ''x'')) ! 0) = ''out/01 - x.mp3''"
proof -
  have ne: "replicate 10 (0::nat, 0::real, 1::real, ''x'') \<noteq> []"
    by simp
  note T = zero_pad_width [OF ne, of "\<lambda>s n. take n s" "\<lambda>a b. a @ ''/'' @ b" "''in.m4b''"
      "''out''" MP3 Map.empty 44100]
  have w: "num_digits (length (replicate 10 (0::nat, 0::real, 1::real, ''x''))) = 2"
    using T by simp
  have w': "num_digits 10 = 2"
    using w by simp
  have f: "format_0d 2 (Suc 0) = ''01''"
    by code_simp
  have "job_output_file (chapter_args (\<lambda>s n. take n s) (\<lambda>a b. a @ ''/'' @ b) ''in.m4b'' ''out'' MP3
        Map.empty 44100 (replicate 10 (0, 0, 1, ''x'')) ! 0) =
     ''out'' @ ''/'' @ take 100 (format_0d (nat (num_digits (length (replicate 10 (0::nat, 0::real, 1::real, ''x''))))) (0 + 1)
        @ '' - '' @ survivor_title (replicate 10 (0::nat, 0::real, 1::real, ''x'') ! 0)) @ ''.'' @ format_name MP3"
    using T [THEN conjunct2, THEN conjunct1] by simp
  then have "job_output_file (chapter_args (\<lambda>s n. take n s) (\<lambda>a b. a @ ''/'' @ b) ''in.m4b'' ''out'' MP3
        Map.empty 44100 (replicate 10 (0, 0, 1, ''x'')) ! 0) = ''out/01 - x.mp3''"
    by (simp add: w' f survivor_title_def)
  with ne w show ?thesis
    by simp
qed

text \<open>
  C6, as the specification states it (9 survivors get two-digit sequence numbers), fails:
  for 9 survivors the width is 1 and the first title is numbered \<open>"1"\<close>.
\<close>

theorem nine_survivors_one_digit_counterexample:
  "num_digits 9 \<noteq> 2 \<and> numbered_title (num_digits 9) 0 ''Ch1'' = ''1 - Ch1''"
proof -
  have "format_0d 1 1 = ''1''"
    by code_simp
  then show ?thesis
    by (simp add: num_digits_9 numbered_title_def)
qed

text \<open>
  C6, amended. With the formula including the \<open>+1\<close>, a batch of exactly 9 survivors gets
  one-digit sequence numbers: the width is 1 and the numbered title of job \<open>k\<close> starts
  with the single digit of \<open>k + 1\<close>. Two-digit padding starts with the tenth survivor.
\<close>

theorem nine_survivors_one_digit:
  assumes "length survivors = 9" and "k < length survivors"
  shows "num_digits (length survivors) = 1
       \<and> numbered_title (num_digits (length survivors)) k title =
           [digit_char (k + 1)] @ '' - '' @ title
       \<and> num_digits (length survivors + 1) = 2"
proof -
  have "k + 1 < 10"
    using assms by simp
  then have "str_nat (k + 1) = [digit_char (k + 1)]"
    by (subst str_nat.simps) simp
  then show ?thesis
    using assms(1) by (simp add: num_digits_9 num_digits_10 numbered_title_def format_0d_def)
qed

theorem nine_survivors_one_digit_witness:
  "length (replicate 9 (0::nat, 0::real, 1::real, ''x'')) = 9
   \<and> numbered_title (num_digits (length (replicate 9 (0::nat, 0::real, 1::real, ''x'')))) 8 ''Ch9''
       = ''9 - Ch9''"
proof -
  have l: "length (replicate 9 (0::nat, 0::real, 1::real, ''x'')) = 9"
    and k: "8 < length (replicate 9 (0::nat, 0::real, 1::real, ''x''))"
    by simp_all
  have d: "digit_char (8 + 1) = CHR ''9''"
    by code_simp
  show ?thesis
    using nine_survivors_one_digit [OF l k, of "''Ch9''", THEN conjunct2, THEN conjunct1] d
    by simp
qed

section \<open>The fallback title\<close>













section \<open>The engine call and the run of the batch\<close>

lemma output_args_metadata:
  "output_args j cover ''metadata'' =
     Some (PStr (''album='' @ (case job_global_metadata j ''album'' of None \<Rightarrow> [] | Some v \<Rightarrow> v)))"
  by (cases "job_format j") (simp_all add: output_args_def Let_def)

lemma output_args_values:
  "output_args j cover key = Some v \<Longrightarrow>
     v = PInt (job_sample_rate j)
     \<or> v = PStr (''album='' @ (case job_global_metadata j ''album'' of None \<Rightarrow> [] | Some v \<Rightarrow> v))
     \<or> v \<in> {PStr ''libmp3lame'', PStr ''128k'', PInt 2, PStr ''aac'', PStr ''pcm_s16le'', PStr ''copy''}"
  by (cases "job_format j") (auto simp: output_args_def Let_def split: if_splits)

text \<open>
  C3. The command handed to the engine does not carry the title, the artist and the
  album together. The dictionary display of \<open>process_chapter\<close> writes the key
  \<open>'metadata'\<close> three times, so the entry that is left is the last one: the command's
  \<open>'metadata'\<close> argument is \<open>"album=..."\<close>, and no argument of the command is the
  \<open>"title=..."\<close> or the \<open>"artist=..."\<close> string, whatever the format and the cover.
\<close>

theorem output_args_drop_title_and_artist:
  "cmd_args (ffmpeg_cmd_of j cover) ''metadata'' =
     Some (PStr (''album='' @ (case job_global_metadata j ''album'' of None \<Rightarrow> [] | Some v \<Rightarrow> v)))
   \<and> cmd_args (ffmpeg_cmd_of j cover) key \<noteq> Some (PStr (''title='' @ job_chapter_title j))
   \<and> cmd_args (ffmpeg_cmd_of j cover) key \<noteq>
        Some (PStr (''artist='' @ (case job_global_metadata j ''artist'' of None \<Rightarrow> [] | Some v \<Rightarrow> v)))"
proof -
  have "output_args j cover key \<noteq> Some (PStr (''title='' @ t))" for t
    using output_args_values [of j cover key "PStr (''title='' @ t)"] by auto
  moreover have "output_args j cover key \<noteq> Some (PStr (''artist='' @ t))" for t
    using output_args_values [of j cover key "PStr (''artist='' @ t)"] by auto
  ultimately show ?thesis
    using output_args_metadata by (simp add: ffmpeg_cmd_of_def)
qed

theorem output_args_drop_title_and_artist_witness:
  "cmd_args (ffmpeg_cmd_of example_job False) ''metadata'' = Some (PStr ''album=Book'')
   \<and> cmd_args (ffmpeg_cmd_of example_job False) ''metadata'' \<noteq> Some (PStr ''title=Intro'')
   \<and> cmd_args (ffmpeg_cmd_of example_job False) ''metadata'' \<noteq> Some (PStr ''artist=Ann'')"
  using output_args_drop_title_and_artist [of example_job False "''metadata''"]
  by (simp add: example_job_def example_tags_def)

lemma process_chapter_outcome:
  "fst (process_chapter eng j n) = fst (process_chapter eng j 0)"
  by (simp add: process_chapter_def split: option.splits)

lemma executor_map_Cons:
  "fst (executor_map eng (j # js) n) =
     fst (process_chapter eng j n) # fst (executor_map eng js (snd (process_chapter eng j n)))"
  "snd (executor_map eng (j # js) n) =
     snd (executor_map eng js (snd (process_chapter eng j n)))"
  by (simp_all add: Let_def split: prod.splits)

lemma executor_map_outcomes:
  "fst (executor_map eng jobs n) = map (\<lambda>j. fst (process_chapter eng j 0)) jobs"
proof (induction jobs arbitrary: n)
  case Nil
  show ?case by simp
next
  case (Cons j js)
  show ?case
    unfolding executor_map_Cons
    using Cons.IH [of "snd (process_chapter eng j n)"] process_chapter_outcome [of eng j n]
    by simp
qed

lemma outcome_partition:
  "length (filter (\<lambda>r. r = Returned) rs) + length (filter (\<lambda>r. r = Raised) rs) = length rs"
proof (induction rs)
  case Nil
  show ?case by simp
next
  case (Cons r rs)
  then show ?case by (cases r) simp_all
qed

lemma main_echoed_engine:
  "echoed (main slugify path_join fs eng chapters global_metadata sample_rate input_file
            output_folder threads deduplicate fmt) =
   echoed (main slugify path_join fs eng' chapters global_metadata sample_rate input_file
            output_folder threads deduplicate fmt)"
  by (simp add: main_def Let_def split_def)

lemma main_submitted_engine:
  "submitted (main slugify path_join fs eng chapters global_metadata sample_rate input_file
            output_folder threads deduplicate fmt) =
   submitted (main slugify path_join fs eng' chapters global_metadata sample_rate input_file
            output_folder threads deduplicate fmt)"
  by (simp add: main_def Let_def split_def)

lemma main_raised_engine:
  "raised (main slugify path_join fs eng chapters global_metadata sample_rate input_file
            output_folder threads deduplicate fmt) =
   raised (main slugify path_join fs eng' chapters global_metadata sample_rate input_file
            output_folder threads deduplicate fmt)"
  by (simp add: main_def Let_def split_def)

lemma dedupe_scenario: "dedupe scenario True = [(0, 0, 1, ''Ch1''), (2, 2, 3, ''Ch2'')]"
  by code_simp

lemma num_digits_2: "num_digits 2 = 1"
  using num_digits_eq [of 0 2] by simp

lemma example_args:
  "chapter_args example_slugify example_join ''in.m4b'' ''out'' MP3 example_tags 44100
     (dedupe scenario True) = example_jobs"
proof -
  have f: "format_0d (Suc 0) (Suc 0) = ''1''" "format_0d (Suc 0) (Suc (Suc 0)) = ''2''"
    by code_simp+
  have nd: "num_digits (Suc (Suc 0)) = 1"
    using num_digits_2 by (simp add: numeral_2_eq_2)
  show ?thesis
    by (simp add: dedupe_scenario chapter_args_def Let_def nd numbered_title_def f
        example_slugify_def example_join_def example_jobs_def)
qed

lemma example_outcomes:
  "executor_map (engine_failing_at 0) example_jobs 0 = ([Raised, Returned], 1)"
  "executor_map (engine_failing_at 2) example_jobs 0 = ([Returned, Raised], 1)"
  by (simp_all add: example_jobs_def process_chapter_def ffmpeg_cmd_of_def
      engine_failing_at_def)

lemma example_main_run:
  "0 < threads \<Longrightarrow>
   example_main eng ''out'' threads =
     \<lparr>echoed = [''Successfully processed 3 chapters.'',
                 ''After deduplication, 2 unique chapters remain in out''],
      progress_bar = Some (snd (executor_map eng example_jobs 0), 3),
      submitted = example_jobs, raised = None\<rparr>"
proof -
  assume t: "0 < threads"
  have n: "str_nat 3 = ''3''" "str_nat 2 = ''2''"
    by code_simp+
  have l: "length scenario = 3" "scenario \<noteq> []"
    by (simp_all add: scenario_def)
  have d: "length (dedupe scenario True) = 2"
    by (simp add: dedupe_scenario)
  show ?thesis
    using t
    by (simp add: example_main_def example_fs_def main_def Let_def split_def example_args l d n)
qed

text \<open>
  C4, as the specification states it (every failure is recorded and returned to the
  caller), fails: the run in which the first job fails and the run in which the second
  job fails leave the same result of \<open>main\<close>, so which job failed cannot be read from
  it.
\<close>

theorem failures_not_returned_counterexample:
  "example_main (engine_failing_at 0) ''out'' 4 = example_main (engine_failing_at 2) ''out'' 4
   \<and> fst (executor_map (engine_failing_at 0)
          (submitted (example_main (engine_failing_at 0) ''out'' 4)) 0) = [Raised, Returned]
   \<and> fst (executor_map (engine_failing_at 2)
          (submitted (example_main (engine_failing_at 2) ''out'' 4)) 0) = [Returned, Raised]"
  by (simp add: example_main_run example_outcomes)

text \<open>
  C4, amended. Every submitted job runs, whatever the other jobs do: the outcome of a
  job is the outcome of \<open>process_chapter\<close> on that job alone. Each job ends as returned
  or raised, so the two counts add up to the number of submitted jobs. The failures are
  not recorded and not returned: the lines \<open>main\<close> prints, the jobs it submits and the
  exception it ends with, if any, are the same for every engine.
\<close>

theorem executor_runs_every_job:
  "fst (executor_map eng jobs n) = map (\<lambda>j. fst (process_chapter eng j 0)) jobs
   \<and> length (filter (\<lambda>r. r = Returned) (fst (executor_map eng jobs n)))
       + length (filter (\<lambda>r. r = Raised) (fst (executor_map eng jobs n))) = length jobs
   \<and> echoed (main slugify path_join fs eng chapters global_metadata sample_rate input_file
         output_folder threads deduplicate fmt) =
       echoed (main slugify path_join fs eng' chapters global_metadata sample_rate input_file
         output_folder threads deduplicate fmt)
   \<and> submitted (main slugify path_join fs eng chapters global_metadata sample_rate input_file
         output_folder threads deduplicate fmt) =
       submitted (main slugify path_join fs eng' chapters global_metadata sample_rate input_file
         output_folder threads deduplicate fmt)
   \<and> raised (main slugify path_join fs eng chapters global_metadata sample_rate input_file
         output_folder threads deduplicate fmt) =
       raised (main slugify path_join fs eng' chapters global_metadata sample_rate input_file
         output_folder threads deduplicate fmt)"
proof -
  have 1: "fst (executor_map eng jobs n) = map (\<lambda>j. fst (process_chapter eng j 0)) jobs"
    by (rule executor_map_outcomes)
  have 2: "length (filter (\<lambda>r. r = Returned) (fst (executor_map eng jobs n)))
       + length (filter (\<lambda>r. r = Raised) (fst (executor_map eng jobs n))) = length jobs"
    using outcome_partition [of "fst (executor_map eng jobs n)"] by (simp add: 1)
  show ?thesis
    using 1 2 main_echoed_engine [of slugify path_join fs eng chapters global_metadata
        sample_rate input_file output_folder threads deduplicate fmt eng']
      main_submitted_engine [of slugify path_join fs eng chapters global_metadata
        sample_rate input_file output_folder threads deduplicate fmt eng']
      main_raised_engine [of slugify path_join fs eng chapters global_metadata
        sample_rate input_file output_folder threads deduplicate fmt eng']
    by blast
qed

theorem executor_runs_every_job_witness:
  "fst (executor_map (engine_failing_at 0) example_jobs 0) = [Raised, Returned]
   \<and> length (filter (\<lambda>r. r = Returned) (fst (executor_map (engine_failing_at 0) example_jobs 0)))
       + length (filter (\<lambda>r. r = Raised) (fst (executor_map (engine_failing_at 0) example_jobs 0)))
       = 2"
proof -
  have o: "map (\<lambda>j. fst (process_chapter (engine_failing_at 0) j 0)) example_jobs
      = [Raised, Returned]"
    by (simp add: example_jobs_def process_chapter_def ffmpeg_cmd_of_def engine_failing_at_def)
  have l: "length example_jobs = 2"
    by (simp add: example_jobs_def)
  note T = executor_runs_every_job [of "engine_failing_at 0" example_jobs 0]
  have a: "fst (executor_map (engine_failing_at 0) example_jobs 0) = [Raised, Returned]"
    using T [THEN conjunct1] o by simp
  have b: "length (filter (\<lambda>r. r = Returned) (fst (executor_map (engine_failing_at 0) example_jobs 0)))
       + length (filter (\<lambda>r. r = Raised) (fst (executor_map (engine_failing_at 0) example_jobs 0)))
       = 2"
    using T [THEN conjunct2, THEN conjunct1] l by simp
  from a b show ?thesis ..
qed

text \<open>
  C10, as stated, fails in two ways although a chapter was found and the output folder
  did not exist. When the thread count is not positive, the pool's constructor raises
  before any job is submitted; when the output folder cannot be created (its name is
  empty), \<open>os.makedirs\<close> raises before the progress bar exists. In both runs nothing is
  printed.
\<close>

theorem main_summary_counterexample:
  "scenario \<noteq> []
   \<and> \<not> path_exists example_fs ''out''
   \<and> echoed (example_main engine_succeeding ''out'' 0) = []
   \<and> raised (example_main engine_succeeding ''out'' 0) = Some ValueError
   \<and> \<not> path_exists example_fs []
   \<and> echoed (example_main engine_succeeding [] 4) = []
   \<and> raised (example_main engine_succeeding [] 4) = Some OSError"
  by (simp add: example_main_def example_fs_def main_def Let_def scenario_def)

text \<open>
  C10, amended. When a chapter was found, the output folder did not exist and could be
  created, and the thread count is at least 1, \<open>main\<close> ends without an exception and
  prints \<open>"Successfully processed N chapters."\<close> with \<open>N\<close> the number of chapters
  before deduplication, followed by the line with the number of survivors. The printed
  lines do not depend on the engine: they are the same whether every job returned or
  every job raised.
\<close>

theorem main_summary:
  assumes "chapters \<noteq> []" and "\<not> path_exists fs output_folder"
    and "makedirs fs output_folder" and "0 < threads"
  shows "raised (main slugify path_join fs eng chapters global_metadata sample_rate input_file
           output_folder threads deduplicate fmt) = None
       \<and> echoed (main slugify path_join fs eng chapters global_metadata sample_rate input_file
           output_folder threads deduplicate fmt) =
           [''Successfully processed '' @ str_nat (length chapters) @ '' chapters.'',
            if deduplicate
            then ''After deduplication, '' @ str_nat (length (dedupe chapters deduplicate))
                   @ '' unique chapters remain in '' @ output_folder
            else ''All '' @ str_nat (length (dedupe chapters deduplicate))
                   @ '' chapters saved to '' @ output_folder]
       \<and> echoed (main slugify path_join fs eng chapters global_metadata sample_rate input_file
           output_folder threads deduplicate fmt) =
         echoed (main slugify path_join fs eng' chapters global_metadata sample_rate input_file
           output_folder threads deduplicate fmt)"
  using assms by (simp add: main_def Let_def split_def)

theorem main_summary_witness:
  "scenario \<noteq> [] \<and> \<not> path_exists example_fs ''out'' \<and> makedirs example_fs ''out''
   \<and> (0::int) < 4
   \<and> echoed (example_main engine_failing_always ''out'' 4) =
       [''Successfully processed 3 chapters.'',
        ''After deduplication, 2 unique chapters remain in out'']
   \<and> echoed (example_main engine_succeeding ''out'' 4) =
       echoed (example_main engine_failing_always ''out'' 4)
   \<and> length (dedupe scenario True) = 2"
proof -
  have ne: "scenario \<noteq> []" and nf: "\<not> path_exists example_fs ''out''"
    and mk: "makedirs example_fs ''out''" and t: "(0::int) < 4"
    by (simp_all add: scenario_def example_fs_def)
  have n: "str_nat 3 = ''3''" "str_nat 2 = ''2''"
    by code_simp+
  have l: "length scenario = 3"
    by (simp add: scenario_def)
  have d: "length (dedupe scenario True) = 2"
    by (simp add: dedupe_scenario)
  note T = main_summary [OF ne nf mk t, of example_slugify example_join _ example_tags 44100
      "''in.m4b''" True MP3]
  have a: "echoed (example_main engine_failing_always ''out'' 4) =
       [''Successfully processed 3 chapters.'',
        ''After deduplication, 2 unique chapters remain in out'']"
    using T [of engine_failing_always, THEN conjunct2, THEN conjunct1]
    by (simp add: example_main_def l d n)
  have b: "echoed (example_main engine_succeeding ''out'' 4) =
       echoed (example_main engine_failing_always ''out'' 4)"
    using T [of engine_succeeding engine_failing_always, THEN conjunct2, THEN conjunct2]
    by (simp add: example_main_def)
  show ?thesis
    using ne nf mk a b d by simp
qed

end
